theory Spec2Isabelle
  imports Main "HOL-Library.Word" "HOL-Library.AList"
begin

section \<open>Data model of \<^verbatim>\<open>zmk_battery/battery_monitor.py\<close>\<close>

text \<open>
  An awaited transport call either returns a value or raises; the exception is
  represented by its message, which is all the monitor ever reads of it
  (\<^verbatim>\<open>str(e)\<close>).
\<close>

datatype 'a outcome = Raises string | Returns 'a

type_synonym byte = "8 word"

datatype ConnectStatus =
    CONNECTED
  | DEVICE_NOT_FOUND
  | BATTERY_SERVICE_NOT_FOUND
  | BATTERY_LEVEL_CHARACTERISTIC_NOT_FOUND
  | SUBSCRIPTION_FAILURE

datatype ReadStatus = SUCCESS | NOT_CONNECTED | FAILURE

record BatteryStatus =
  name :: string
  level :: int

text \<open>
  \<^verbatim>\<open>ConnectResult\<close> and \<^verbatim>\<open>ReadBatteryLevelResult\<close> share the field names
  \<^verbatim>\<open>status\<close> and \<^verbatim>\<open>error_message\<close>; the fields carry a prefix here. A Python
  dict keeps insertion order and overwrites in place, which is what
  \<^const>\<open>AList.update\<close> does on an association list.
\<close>

record ConnectResult =
  cr_status :: ConnectStatus
  cr_error_message :: string

type_synonym battery_dict = "(int \<times> BatteryStatus) list"

record ReadBatteryLevelResult =
  rr_status :: ReadStatus
  rr_batteries :: battery_dict
  rr_error_message :: string

subsection \<open>The bleak objects the monitor touches\<close>

record BLEDevice =
  dev_name :: "string option"
  dev_address :: string

record BleakGATTCharacteristic =
  chr_uuid :: string
  chr_handle :: int
  chr_description :: string

record BleakGATTService =
  svc_uuid :: string
  svc_characteristics :: "BleakGATTCharacteristic list"

record BleakClient =
  client_is_connected :: bool

text \<open>
  The BLE stack is outside the repository. One value of \<open>transport\<close> fixes what
  each call answers during one operation of the monitor: \<open>link_up\<close> is what
  \<^verbatim>\<open>client.is_connected\<close> reads right after \<^verbatim>\<open>client.connect()\<close>, and
  \<open>still_connected\<close> what it reads when the initial bulk read checks it.
\<close>

record transport =
  discover :: "BLEDevice list outcome"
  find_device_by_address :: "string \<Rightarrow> BLEDevice option outcome"
  client_connect :: "unit outcome"
  link_up :: bool
  get_services :: "BleakGATTService list outcome"
  start_notify :: "string \<Rightarrow> unit outcome"
  still_connected :: bool
  read_gatt_char :: "string \<Rightarrow> byte list outcome"
  client_disconnect :: "unit outcome"

text \<open>The awaited transport calls of the connect handshake, in the order made.\<close>

datatype call =
    FindDevice string
  | Connect
  | GetServices
  | StartNotify string
  | Disconnect

record BatteryMonitor =
  batteries :: battery_dict
  client :: "BleakClient option"
  device :: "BLEDevice option"
  battery_characteristics :: "(int \<times> string) list"

definition BATTERY_SERVICE_UUID :: string where
  "BATTERY_SERVICE_UUID = ''0000180f-0000-1000-8000-00805f9b34fb''"

definition BATTERY_LEVEL_CHAR_UUID :: string where
  "BATTERY_LEVEL_CHAR_UUID = ''00002a19-0000-1000-8000-00805f9b34fb''"

definition BATTERY_DEFAULT_NAME :: string where
  "BATTERY_DEFAULT_NAME = ''Main''"

text \<open>\<^verbatim>\<open>BatteryMonitor.__init__\<close>\<close>

definition init_monitor :: BatteryMonitor where
  "init_monitor =
     \<lparr>batteries = [], client = None, device = None, battery_characteristics = []\<rparr>"

subsection \<open>String helpers\<close>

text \<open>\<^verbatim>\<open>str.lower()\<close> on the ASCII range, which is where UUID strings live.\<close>

definition lower_char :: "char \<Rightarrow> char" where
  "lower_char c =
     (case map_of (zip ''ABCDEFGHIJKLMNOPQRSTUVWXYZ'' ''abcdefghijklmnopqrstuvwxyz'') c of
        Some l \<Rightarrow> l
      | None \<Rightarrow> c)"

definition lower :: "string \<Rightarrow> string" where
  "lower s = map lower_char s"

text \<open>The format specification \<^verbatim>\<open>{handle:x}\<close>: lower-case hexadecimal, with a sign.\<close>

definition hex_digit :: "nat \<Rightarrow> char" where
  "hex_digit d = ''0123456789abcdef'' ! d"

fun hex_nat :: "nat \<Rightarrow> string" where
  "hex_nat n = (if n < 16 then [hex_digit n] else hex_nat (n div 16) @ [hex_digit (n mod 16)])"

declare hex_nat.simps [simp del]

definition format_x :: "int \<Rightarrow> string" where
  "format_x i = (if i < 0 then CHR ''-'' # hex_nat (nat (- i)) else hex_nat (nat i))"

definition char_uuid_of :: "int \<Rightarrow> string" where
  "char_uuid_of handle = ''0000'' @ format_x handle @ ''-0000-1000-8000-00805f9b34fb''"

section \<open>The Battery Monitor\<close>

definition is_connected :: "BatteryMonitor \<Rightarrow> bool" where
  "is_connected s = (case client s of None \<Rightarrow> False | Some c \<Rightarrow> client_is_connected c)"

text \<open>
  \<^verbatim>\<open>disconnect\<close> clears the channel map first. With a connected client it then
  hands the transport's disconnect to \<^verbatim>\<open>asyncio.create_task\<close>, which does not
  wait for it but needs a running event loop in the calling thread: inside a
  coroutine such as \<^verbatim>\<open>connect\<close> there is one (\<open>running_loop\<close> is true); in
  the tray's button handler and in \<^verbatim>\<open>exit\<close> there is none, and
  \<^verbatim>\<open>create_task\<close> raises \<^verbatim>\<open>RuntimeError\<close> before the session fields are reset.
\<close>

definition disconnect :: "bool \<Rightarrow> BatteryMonitor \<Rightarrow> unit outcome \<times> BatteryMonitor" where
  "disconnect running_loop s =
     (if is_connected s \<and> \<not> running_loop
      then (Raises ''no running event loop'', s\<lparr>batteries := []\<rparr>)
      else (Returns (),
            s\<lparr>batteries := [], client := None, device := None,
              battery_characteristics := []\<rparr>))"

text \<open>The loop of \<^verbatim>\<open>read_battery_levels\<close> over \<^verbatim>\<open>self._battery_characteristics\<close>.\<close>

fun read_loop ::
  "transport \<Rightarrow> (int \<times> string) list \<Rightarrow> battery_dict \<Rightarrow> battery_dict outcome" where
  "read_loop t [] result = Returns result"
| "read_loop t ((handle, description) # rest) result =
     (case read_gatt_char t (char_uuid_of handle) of
        Raises e \<Rightarrow> Raises e
      | Returns v \<Rightarrow>
          (case v of
             [] \<Rightarrow> read_loop t rest result
           | b # _ \<Rightarrow>
               read_loop t rest
                 (AList.update handle
                    \<lparr>name = description,
                     level = (if uint b = 255 then - 1 else uint b)\<rparr> result)))"

definition read_battery_levels ::
  "transport \<Rightarrow> BatteryMonitor \<Rightarrow> ReadBatteryLevelResult \<times> BatteryMonitor" where
  "read_battery_levels t s =
     (if \<not> is_connected s \<or> client s = None
      then (\<lparr>rr_status = NOT_CONNECTED, rr_batteries = [], rr_error_message = []\<rparr>, s)
      else
        (case read_loop t (battery_characteristics s) [] of
           Returns bs \<Rightarrow>
             (\<lparr>rr_status = SUCCESS, rr_batteries = bs, rr_error_message = []\<rparr>, s)
         | Raises e \<Rightarrow>
             (\<lparr>rr_status = FAILURE, rr_batteries = [], rr_error_message = e\<rparr>, s)))"

text \<open>
  \<^verbatim>\<open>_battery_level_changed_handler\<close>: the search for the sender stops at the first
  characteristic with that handle. The second component tells whether the
  change callback was invoked.
\<close>

fun handler_loop ::
  "(int \<times> string) list \<Rightarrow> int \<Rightarrow> int \<Rightarrow> battery_dict \<Rightarrow> battery_dict" where
  "handler_loop [] sender lvl bs = bs"
| "handler_loop ((handle, description) # rest) sender lvl bs =
     (if handle = sender
      then AList.update handle \<lparr>name = description, level = lvl\<rparr> bs
      else handler_loop rest sender lvl bs)"

definition battery_level_changed_handler ::
  "int \<Rightarrow> byte list \<Rightarrow> BatteryMonitor \<Rightarrow> BatteryMonitor \<times> bool" where
  "battery_level_changed_handler sender data s =
     (case data of
        [] \<Rightarrow> (s, False)
      | b # _ \<Rightarrow>
          (s\<lparr>batteries :=
               handler_loop (battery_characteristics s) sender
                 (if uint b = 255 then - 1 else uint b) (batteries s)\<rparr>,
           True))"

subsection \<open>\<^verbatim>\<open>connect\<close>\<close>

text \<open>
  The subscription loop: each characteristic is subscribed and then entered in
  \<^verbatim>\<open>self._batteries\<close> with level \<open>-1\<close>; the first \<^verbatim>\<open>start_notify\<close> that raises
  ends the loop with the entries made so far.
\<close>

fun subscribe_loop ::
  "transport \<Rightarrow> (int \<times> string) list \<Rightarrow> battery_dict \<Rightarrow> call list
     \<Rightarrow> string option \<times> battery_dict \<times> call list" where
  "subscribe_loop t [] bs calls = (None, bs, calls)"
| "subscribe_loop t ((handle, description) # rest) bs calls =
     (case start_notify t (char_uuid_of handle) of
        Returns _ \<Rightarrow>
          subscribe_loop t rest
            (AList.update handle \<lparr>name = description, level = - 1\<rparr> bs)
            (calls @ [StartNotify (char_uuid_of handle)])
      | Raises e \<Rightarrow> (Some e, bs, calls @ [StartNotify (char_uuid_of handle)]))"

text \<open>The outer \<^verbatim>\<open>except Exception\<close> of \<^verbatim>\<open>connect\<close>.\<close>

definition connect_except ::
  "transport \<Rightarrow> string \<Rightarrow> BatteryMonitor \<Rightarrow> call list
     \<Rightarrow> ConnectResult outcome \<times> BatteryMonitor \<times> call list" where
  "connect_except t e s calls =
     (let reset = s\<lparr>client := None, device := None, battery_characteristics := []\<rparr>;
          res = Returns \<lparr>cr_status = DEVICE_NOT_FOUND, cr_error_message = e\<rparr>
      in if is_connected s
         then (case client_disconnect t of
                 Raises e' \<Rightarrow> (Raises e', s, calls @ [Disconnect])
               | Returns _ \<Rightarrow> (res, reset, calls @ [Disconnect]))
         else (res, reset, calls))"

text \<open>
  \<^verbatim>\<open>await client.disconnect(); return ConnectResult(...)\<close> inside the \<^verbatim>\<open>try\<close>: a
  disconnect that raises lands in the outer handler.
\<close>

definition disconnect_and_return ::
  "transport \<Rightarrow> ConnectResult \<Rightarrow> BatteryMonitor \<Rightarrow> call list
     \<Rightarrow> ConnectResult outcome \<times> BatteryMonitor \<times> call list" where
  "disconnect_and_return t res s calls =
     (case client_disconnect t of
        Raises e \<Rightarrow> connect_except t e s (calls @ [Disconnect])
      | Returns _ \<Rightarrow> (Returns res, s, calls @ [Disconnect]))"

definition find_battery_service :: "BleakGATTService list \<Rightarrow> BleakGATTService option" where
  "find_battery_service services =
     find (\<lambda>service. lower (svc_uuid service) = BATTERY_SERVICE_UUID) services"

definition battery_level_characteristics :: "BleakGATTService \<Rightarrow> (int \<times> string) list" where
  "battery_level_characteristics battery_service =
     map (\<lambda>c. (chr_handle c,
                if chr_description c = [] then BATTERY_DEFAULT_NAME else chr_description c))
       (filter (\<lambda>c. lower (chr_uuid c) = BATTERY_LEVEL_CHAR_UUID)
          (svc_characteristics battery_service))"

text \<open>Lines 188 to 198: store the connection, read once, commit a successful read.\<close>

definition store_and_read ::
  "transport \<Rightarrow> BLEDevice \<Rightarrow> (int \<times> string) list \<Rightarrow> BatteryMonitor
     \<Rightarrow> BatteryMonitor" where
  "store_and_read t dev characteristics s =
     (let s1 = s\<lparr>client := Some \<lparr>client_is_connected = still_connected t\<rparr>,
                 device := Some dev,
                 battery_characteristics := characteristics\<rparr>;
          (read_result, s2) = read_battery_levels t s1
      in if rr_status read_result = SUCCESS
         then s2\<lparr>batteries := rr_batteries read_result\<rparr>
         else s2)"

definition connect ::
  "transport \<Rightarrow> string \<Rightarrow> string \<Rightarrow> BatteryMonitor
     \<Rightarrow> ConnectResult outcome \<times> BatteryMonitor \<times> call list" where
  "connect t device_name device_id s0 =
     (case disconnect True s0 of
        (Raises e, s) \<Rightarrow> connect_except t e s []
      | (Returns _, s) \<Rightarrow>
          (case find_device_by_address t device_id of
              Raises e \<Rightarrow> connect_except t e s [FindDevice device_id]
            | Returns None \<Rightarrow>
                (Returns \<lparr>cr_status = DEVICE_NOT_FOUND, cr_error_message = []\<rparr>, s,
                 [FindDevice device_id])
            | Returns (Some dev) \<Rightarrow>
                (case client_connect t of
                   Raises e \<Rightarrow> connect_except t e s [FindDevice device_id, Connect]
                 | Returns _ \<Rightarrow>
                     if \<not> link_up t
                     then (Returns \<lparr>cr_status = DEVICE_NOT_FOUND, cr_error_message = []\<rparr>, s,
                           [FindDevice device_id, Connect])
                     else
                       (case get_services t of
                          Raises e \<Rightarrow>
                            connect_except t e s [FindDevice device_id, Connect, GetServices]
                        | Returns services \<Rightarrow>
                            (case find_battery_service services of
                               None \<Rightarrow>
                                 disconnect_and_return t
                                   \<lparr>cr_status = BATTERY_SERVICE_NOT_FOUND, cr_error_message = []\<rparr>
                                   s [FindDevice device_id, Connect, GetServices]
                             | Some battery_service \<Rightarrow>
                                 (let characteristics =
                                        battery_level_characteristics battery_service
                                  in if characteristics = []
                                     then disconnect_and_return t
                                            \<lparr>cr_status = BATTERY_LEVEL_CHARACTERISTIC_NOT_FOUND,
                                             cr_error_message = []\<rparr>
                                            s [FindDevice device_id, Connect, GetServices]
                                     else
                                       (case subscribe_loop t characteristics (batteries s)
                                               [FindDevice device_id, Connect, GetServices] of
                                          (Some e, bs, calls) \<Rightarrow>
                                            disconnect_and_return t
                                              \<lparr>cr_status = SUBSCRIPTION_FAILURE,
                                               cr_error_message = e\<rparr>
                                              (s\<lparr>batteries := bs\<rparr>) calls
                                        | (None, bs, calls) \<Rightarrow>
                                            (Returns \<lparr>cr_status = CONNECTED, cr_error_message = []\<rparr>,
                                             store_and_read t dev characteristics
                                               (s\<lparr>batteries := bs\<rparr>),
                                             calls))))))))"

section \<open>The Device Enumerator\<close>

text \<open>
  \<^verbatim>\<open>list_paired_devices\<close> is observed through what it calls: the two callbacks
  and the logger. The callbacks are the caller's; each invocation either
  returns or raises.
\<close>

datatype enum_event =
    DeviceCallback string string
  | CompletionCallback
  | LogError string

fun report_devices ::
  "(string \<Rightarrow> string \<Rightarrow> unit outcome) \<Rightarrow> BLEDevice list \<Rightarrow> enum_event list
     \<Rightarrow> unit outcome \<times> enum_event list" where
  "report_devices device_callback [] tr = (Returns (), tr)"
| "report_devices device_callback (d # ds) tr =
     (case dev_name d of
        None \<Rightarrow> report_devices device_callback ds tr
      | Some n \<Rightarrow>
          if n = [] then report_devices device_callback ds tr
          else
            (case device_callback n (dev_address d) of
               Raises e \<Rightarrow> (Raises e, tr @ [DeviceCallback n (dev_address d)])
             | Returns _ \<Rightarrow>
                 report_devices device_callback ds
                   (tr @ [DeviceCallback n (dev_address d)])))"

text \<open>The \<^verbatim>\<open>except\<close> branch: log, then call the completion callback (again, if it was it that raised).\<close>

definition enum_except ::
  "unit outcome \<Rightarrow> string \<Rightarrow> enum_event list \<Rightarrow> unit outcome \<times> enum_event list" where
  "enum_except completion_callback e tr =
     (completion_callback,
      tr @ [LogError (''Error discovering devices: '' @ e), CompletionCallback])"

definition list_paired_devices ::
  "transport \<Rightarrow> (string \<Rightarrow> string \<Rightarrow> unit outcome) \<Rightarrow> unit outcome
     \<Rightarrow> unit outcome \<times> enum_event list" where
  "list_paired_devices t device_callback completion_callback =
     (case discover t of
        Raises e \<Rightarrow> enum_except completion_callback e []
      | Returns devices \<Rightarrow>
          (case report_devices device_callback devices [] of
             (Raises e, tr) \<Rightarrow> enum_except completion_callback e tr
           | (Returns _, tr) \<Rightarrow>
               (case completion_callback of
                  Raises e \<Rightarrow> enum_except completion_callback e (tr @ [CompletionCallback])
                | Returns _ \<Rightarrow> (Returns (), tr @ [CompletionCallback]))))"

definition has_name :: "BLEDevice \<Rightarrow> bool" where
  "has_name d = (case dev_name d of None \<Rightarrow> False | Some n \<Rightarrow> n \<noteq> [])"

section \<open>The Reconnect Scheduler of \<^verbatim>\<open>zmk_battery/system_tray.py\<close>\<close>

text \<open>
  Of \<^verbatim>\<open>BatteryTrayApp\<close> the scheduler reads and writes two fields and tests
  whether the Tk root window exists. \<open>pending_ticks\<close> counts the \<^verbatim>\<open>timer_tick\<close>
  callbacks handed to \<^verbatim>\<open>root.after\<close> or to a \<^verbatim>\<open>Thread\<close> that have not run yet.
\<close>

record BatteryTrayApp =
  reconnect_counter :: int
  reconnect_timer_running :: bool
  root :: bool
  pending_ticks :: nat

definition RECONNECT_INTERVAL :: int where
  "RECONNECT_INTERVAL = 300"

definition start_reconnect_timer :: "BatteryTrayApp \<Rightarrow> BatteryTrayApp" where
  "start_reconnect_timer a =
     (if reconnect_timer_running a then a
      else a\<lparr>reconnect_timer_running := True,
             reconnect_counter := RECONNECT_INTERVAL,
             pending_ticks := pending_ticks a + 1\<rparr>)"

text \<open>
  \<^verbatim>\<open>timer_tick\<close>; the flag tells whether this tick issued a connect attempt, whose
  outcome then reaches \<^verbatim>\<open>on_connect_done\<close>.
\<close>

definition timer_tick :: "BatteryTrayApp \<Rightarrow> BatteryTrayApp \<times> bool" where
  "timer_tick a =
     (if \<not> reconnect_timer_running a then (a, False)
      else
        (let a1 = a\<lparr>reconnect_counter := reconnect_counter a - 1\<rparr>
         in if reconnect_counter a1 \<le> 0 then (a1, True)
            else (a1\<lparr>pending_ticks := pending_ticks a1 + 1\<rparr>, False)))"

definition retry_later :: "BatteryTrayApp \<Rightarrow> BatteryTrayApp" where
  "retry_later a =
     (let a1 = a\<lparr>reconnect_counter := RECONNECT_INTERVAL\<rparr>
      in if root a1 then a1\<lparr>pending_ticks := pending_ticks a1 + 1\<rparr> else a1)"

definition on_connect_done :: "ConnectResult outcome \<Rightarrow> BatteryTrayApp \<Rightarrow> BatteryTrayApp" where
  "on_connect_done fut a =
     (case fut of
        Returns result \<Rightarrow>
          if cr_status result = CONNECTED then a\<lparr>reconnect_timer_running := False\<rparr>
          else retry_later a
      | Raises e \<Rightarrow> retry_later a)"

text \<open>The event loop runs one queued \<^verbatim>\<open>timer_tick\<close>, if there is one.\<close>

definition run_pending_tick :: "BatteryTrayApp \<Rightarrow> (BatteryTrayApp \<times> bool) option" where
  "run_pending_tick a =
     (if pending_ticks a = 0 then None
      else Some (timer_tick (a\<lparr>pending_ticks := pending_ticks a - 1\<rparr>)))"

text \<open>\<^verbatim>\<open>BatteryTrayApp.__init__\<close>, and \<^verbatim>\<open>run\<close> when a device was given on the command line.\<close>

definition init_app :: BatteryTrayApp where
  "init_app =
     \<lparr>reconnect_counter = RECONNECT_INTERVAL, reconnect_timer_running = False,
      root = False, pending_ticks = 0\<rparr>"

section \<open>A split keyboard with two battery characteristics\<close>

definition keyboard :: BLEDevice where
  "keyboard = \<lparr>dev_name = Some ''Corne'', dev_address = ''F0:0D:CA:FE:00:01''\<rparr>"

definition left_right_service :: BleakGATTService where
  "left_right_service =
     \<lparr>svc_uuid = ''0000180F-0000-1000-8000-00805F9B34FB'',
      svc_characteristics =
        [\<lparr>chr_uuid = ''00002a19-0000-1000-8000-00805f9b34fb'', chr_handle = 16,
          chr_description = ''Left''\<rparr>,
         \<lparr>chr_uuid = ''00002a19-0000-1000-8000-00805f9b34fb'', chr_handle = 20,
          chr_description = ''Right''\<rparr>]\<rparr>"

definition split_keyboard :: transport where
  "split_keyboard =
     \<lparr>discover =
        Returns [keyboard, \<lparr>dev_name = None, dev_address = ''F0:0D:CA:FE:00:02''\<rparr>,
                 \<lparr>dev_name = Some [], dev_address = ''F0:0D:CA:FE:00:03''\<rparr>],
      find_device_by_address =
        (\<lambda>a. Returns (if a = dev_address keyboard then Some keyboard else None)),
      client_connect = Returns (),
      link_up = True,
      get_services = Returns [left_right_service],
      start_notify = (\<lambda>u. Returns ()),
      still_connected = True,
      read_gatt_char = (\<lambda>u. if u = char_uuid_of 16 then Returns [87] else Returns [255]),
      client_disconnect = Returns ()\<rparr>"

text \<open>The same keyboard when subscribing to the second characteristic fails.\<close>

definition second_subscribe_fails :: transport where
  "second_subscribe_fails =
     split_keyboard
       \<lparr>start_notify :=
          (\<lambda>u. if u = char_uuid_of 20 then Raises ''Notify acquire failed'' else Returns ())\<rparr>"

text \<open>The same keyboard when the right half answers a read with no bytes.\<close>

definition right_half_silent :: transport where
  "right_half_silent =
     split_keyboard
       \<lparr>read_gatt_char := (\<lambda>u. if u = char_uuid_of 16 then Returns [87] else Returns [])\<rparr>"

text \<open>The monitor after a successful connect to the split keyboard.\<close>

definition connected_monitor :: BatteryMonitor where
  "connected_monitor =
     \<lparr>batteries = [(16, \<lparr>name = ''Left'', level = 87\<rparr>), (20, \<lparr>name = ''Right'', level = - 1\<rparr>)],
      client = Some \<lparr>client_is_connected = True\<rparr>,
      device = Some keyboard,
      battery_characteristics = [(16, ''Left''), (20, ''Right'')]\<rparr>"

text \<open>The same keyboard when reading the right half's characteristic raises.\<close>

definition right_half_read_fails :: transport where
  "right_half_read_fails =
     split_keyboard
       \<lparr>read_gatt_char :=
          (\<lambda>u. if u = char_uuid_of 16 then Returns [87] else Raises ''GATT read timed out'')\<rparr>"

text \<open>
  The battery-level characteristics the transport reports: those of the first
  service with the battery service UUID, as \<^verbatim>\<open>connect\<close> collects them.
\<close>

definition reported_characteristics :: "transport \<Rightarrow> (int \<times> string) list" where
  "reported_characteristics t =
     (case get_services t of
        Raises e \<Rightarrow> []
      | Returns services \<Rightarrow>
          (case find_battery_service services of
             None \<Rightarrow> []
           | Some battery_service \<Rightarrow> battery_level_characteristics battery_service))"

text \<open>
  Every step of the handshake up to and including the subscriptions goes
  through: the device is found, the link comes up, the battery service has a
  battery-level characteristic, and every \<^verbatim>\<open>start_notify\<close> returns.
\<close>

definition handshake_ok :: "transport \<Rightarrow> string \<Rightarrow> bool" where
  "handshake_ok t device_id =
     ((case find_device_by_address t device_id of
         Returns (Some dev) \<Rightarrow> True
       | _ \<Rightarrow> False)
      \<and> client_connect t = Returns ()
      \<and> link_up t
      \<and> reported_characteristics t \<noteq> []
      \<and> list_all (\<lambda>(h, d). start_notify t (char_uuid_of h) = Returns ())
           (reported_characteristics t))"

text \<open>What the subscription loop enters for a list of characteristics.\<close>

definition unknown_levels :: "(int \<times> string) list \<Rightarrow> battery_dict" where
  "unknown_levels cs = map (\<lambda>(h, d). (h, \<lparr>name = d, level = - 1\<rparr>)) cs"

text \<open>
  Up to \<open>n\<close> queued ticks run one after the other; the run stops at the tick
  that issues a connect attempt, or when nothing is queued.
\<close>

fun run_ticks :: "nat \<Rightarrow> BatteryTrayApp \<Rightarrow> BatteryTrayApp \<times> bool" where
  "run_ticks 0 a = (a, False)"
| "run_ticks (Suc n) a =
     (case run_pending_tick a of
        None \<Rightarrow> (a, False)
      | Some (a', attempt) \<Rightarrow> if attempt then (a', True) else run_ticks n a')"

text \<open>The same keyboard with other readings: the left half unknown, the right half at 63.\<close>

definition new_readings :: transport where
  "new_readings =
     split_keyboard
       \<lparr>read_gatt_char := (\<lambda>u. if u = char_uuid_of 16 then Returns [255] else Returns [63])\<rparr>"

section \<open>Predicates used in the statements\<close>

text \<open>A level is the unknown sentinel \<open>-1\<close> or lies between 0 and the bound \<open>hi\<close>.\<close>

definition level_ok :: "int \<Rightarrow> BatteryStatus \<Rightarrow> bool" where
  "level_ok hi st = (level st = - 1 \<or> (0 \<le> level st \<and> level st \<le> hi))"

definition levels_in :: "int \<Rightarrow> battery_dict \<Rightarrow> bool" where
  "levels_in hi bs = list_all (\<lambda>(h, st). level_ok hi st) bs"

section \<open>Properties of the loops\<close>

lemma uint_byte_255: "uint (b :: byte) = 255 \<longleftrightarrow> b = 255"
proof
  assume "uint b = 255"
  then have "uint b = uint (255 :: byte)" by simp
  then show "b = 255" by (simp only: word_uint_eq_iff)
next
  assume "b = 255" then show "uint b = 255" by simp
qed

lemma uint_byte_le: "uint (b :: byte) \<le> 255"
  using uint_lt2p [of b] by simp

lemma normalized_level_ok:
  "level_ok 254 \<lparr>name = d, level = (if uint (b :: byte) = 255 then - 1 else uint b)\<rparr>"
  using uint_byte_le [of b] by (simp add: level_ok_def)

lemma levels_in_update:
  "levels_in hi bs \<Longrightarrow> level_ok hi st \<Longrightarrow> levels_in hi (AList.update k st bs)"
  by (induction bs) (auto simp: levels_in_def)

lemma read_loop_levels:
  "levels_in 254 acc \<Longrightarrow> read_loop t cs acc = Returns bs \<Longrightarrow> levels_in 254 bs"
proof (induction t cs acc rule: read_loop.induct)
  case (1 t result)
  then show ?case by simp
next
  case (2 t handle description rest result)
  then show ?case
    by (auto split: outcome.splits list.splits
        intro!: levels_in_update normalized_level_ok simp del: AList.update.simps)
qed

lemma read_loop_raises:
  "(h, d) \<in> set cs \<Longrightarrow> read_gatt_char t (char_uuid_of h) = Raises e \<Longrightarrow>
   \<exists>e'. read_loop t cs acc = Raises e'"
  by (induction t cs acc rule: read_loop.induct) (auto split: outcome.splits list.splits)

lemma read_loop_raised_by:
  "read_loop t cs acc = Raises e \<Longrightarrow>
   \<exists>h \<in> fst ` set cs. read_gatt_char t (char_uuid_of h) = Raises e"
  by (induction t cs acc rule: read_loop.induct) (auto split: outcome.splits list.splits)

lemma read_loop_returns:
  "\<forall>(h, d) \<in> set cs. \<exists>v. read_gatt_char t (char_uuid_of h) = Returns v \<Longrightarrow>
   \<exists>bs. read_loop t cs acc = Returns bs"
  by (induction t cs acc rule: read_loop.induct) (auto split: outcome.splits list.splits)

lemma read_loop_skips:
  "read_gatt_char t (char_uuid_of h) = Returns [] \<Longrightarrow> map_of acc h = None \<Longrightarrow>
   read_loop t cs acc = Returns bs \<Longrightarrow> map_of bs h = None"
proof (induction t cs acc rule: read_loop.induct)
  case (1 t result)
  then show ?case by simp
next
  case (2 t handle description rest result)
  then show ?case
    by (cases "handle = h")
      (auto split: outcome.splits list.splits simp: update_conv' simp del: AList.update.simps)
qed

lemma read_loop_keeps_level:
  "read_gatt_char t (char_uuid_of h) = Returns (b # vs) \<Longrightarrow>
   \<exists>st. map_of acc h = Some st \<and> level st = (if uint b = 255 then - 1 else uint b) \<Longrightarrow>
   read_loop t cs acc = Returns bs \<Longrightarrow>
   \<exists>st. map_of bs h = Some st \<and> level st = (if uint b = 255 then - 1 else uint b)"
proof (induction t cs acc rule: read_loop.induct)
  case (1 t result)
  then show ?case by simp
next
  case (2 t handle description rest result)
  then show ?case
    by (cases "handle = h")
      (auto split: outcome.splits list.splits simp: update_conv' simp del: AList.update.simps)
qed

lemma read_loop_normalizes:
  "(h, d) \<in> set cs \<Longrightarrow> read_gatt_char t (char_uuid_of h) = Returns (b # vs) \<Longrightarrow>
   read_loop t cs acc = Returns bs \<Longrightarrow>
   \<exists>st. map_of bs h = Some st \<and> level st = (if uint b = 255 then - 1 else uint b)"
proof (induction t cs acc rule: read_loop.induct)
  case (1 t result)
  then show ?case by simp
next
  case (2 t handle description rest result)
  show ?case
  proof (cases "handle = h")
    case True
    with "2.prems" have
      "read_loop t rest (AList.update h \<lparr>name = description,
          level = (if uint b = 255 then - 1 else uint b)\<rparr> result) = Returns bs"
      by simp
    from read_loop_keeps_level [OF "2.prems"(2) _ this]
    show ?thesis by (simp add: update_conv')
  next
    case False
    with "2.prems" have mem: "(h, d) \<in> set rest" by auto
    from "2.prems"(3) obtain v where
      v: "read_gatt_char t (char_uuid_of handle) = Returns v"
      by (auto split: outcome.splits)
    show ?thesis
    proof (cases v)
      case Nil
      with "2.prems"(3) v have "read_loop t rest result = Returns bs" by simp
      from "2.IH"(1) [OF v Nil mem "2.prems"(2) this] show ?thesis .
    next
      case (Cons b' vs')
      with "2.prems"(3) v have
        "read_loop t rest (AList.update handle \<lparr>name = description,
           level = (if uint b' = 255 then - 1 else uint b')\<rparr> result) = Returns bs"
        by simp
      from "2.IH"(2) [OF v Cons mem "2.prems"(2) this] show ?thesis .
    qed
  qed
qed

lemma handler_loop_unknown:
  "sender \<notin> fst ` set cs \<Longrightarrow> handler_loop cs sender lvl bs = bs"
  by (induction cs sender lvl bs rule: handler_loop.induct) auto

lemma handler_loop_others:
  "h \<noteq> sender \<Longrightarrow> map_of (handler_loop cs sender lvl bs) h = map_of bs h"
  by (induction cs sender lvl bs rule: handler_loop.induct)
     (auto simp: update_conv' simp del: AList.update.simps)

lemma handler_loop_known:
  "sender \<in> fst ` set cs \<Longrightarrow>
   \<exists>d. (sender, d) \<in> set cs \<and>
     map_of (handler_loop cs sender lvl bs) sender = Some \<lparr>name = d, level = lvl\<rparr>"
  by (induction cs sender lvl bs rule: handler_loop.induct)
     (auto simp: update_conv' simp del: AList.update.simps)

lemma handler_loop_levels:
  "levels_in hi bs \<Longrightarrow> level_ok hi \<lparr>name = undefined, level = lvl\<rparr> \<Longrightarrow>
   levels_in hi (handler_loop cs sender lvl bs)"
  by (induction cs sender lvl bs rule: handler_loop.induct)
     (auto intro!: levels_in_update simp: level_ok_def simp del: AList.update.simps)

text \<open>Inside a running event loop \<^verbatim>\<open>disconnect\<close> returns and resets the session.\<close>

lemma disconnect_in_loop:
  "disconnect True s =
     (Returns (),
      s\<lparr>batteries := [], client := None, device := None, battery_characteristics := []\<rparr>)"
  by (simp add: disconnect_def)

section \<open>Unfolding sets for concrete runs\<close>

lemmas example_defs =
  split_keyboard_def second_subscribe_fails_def right_half_silent_def right_half_read_fails_def
  new_readings_def keyboard_def left_right_service_def connected_monitor_def init_monitor_def

lemmas uuid_defs =
  lower_def lower_char_def BATTERY_SERVICE_UUID_def BATTERY_LEVEL_CHAR_UUID_def
  BATTERY_DEFAULT_NAME_def char_uuid_of_def format_x_def hex_nat.simps hex_digit_def

lemmas connect_defs =
  connect_def disconnect_def find_battery_service_def battery_level_characteristics_def
  disconnect_and_return_def connect_except_def store_and_read_def read_battery_levels_def
  is_connected_def

section \<open>Levels stay within what one byte can carry\<close>

lemma subscribe_loop_levels:
  "levels_in hi acc \<Longrightarrow> subscribe_loop t cs acc calls = (r, bs, calls') \<Longrightarrow> levels_in hi bs"
proof (induction t cs acc calls rule: subscribe_loop.induct)
  case (1 t bs calls)
  then show ?case by simp
next
  case (2 t handle description rest bs0 calls)
  have "levels_in hi (AList.update handle \<lparr>name = description, level = - 1\<rparr> bs0)"
    using "2.prems"(1) by (intro levels_in_update) (simp_all add: level_ok_def)
  with 2 show ?case by (auto split: outcome.splits simp del: AList.update.simps)
qed

lemma connect_except_batteries:
  "batteries (fst (snd (connect_except t e s calls))) = batteries s"
  by (simp add: connect_except_def Let_def split: outcome.splits)

lemma disconnect_and_return_batteries:
  "batteries (fst (snd (disconnect_and_return t res s calls))) = batteries s"
  by (simp add: disconnect_and_return_def connect_except_batteries split: outcome.splits)

lemma read_battery_levels_state: "snd (read_battery_levels t s) = s"
  by (simp add: read_battery_levels_def split: outcome.splits)

lemma read_battery_levels_levels:
  "levels_in 254 (rr_batteries (fst (read_battery_levels t s)))"
proof (cases "read_loop t (battery_characteristics s) []")
  case (Raises e)
  then show ?thesis by (simp add: read_battery_levels_def levels_in_def)
next
  case (Returns bs)
  have "levels_in 254 []" by (simp add: levels_in_def)
  from read_loop_levels [OF this Returns] Returns
  show ?thesis by (simp add: read_battery_levels_def levels_in_def)
qed

lemma store_and_read_levels:
  "levels_in 254 (batteries s) \<Longrightarrow> levels_in 254 (batteries (store_and_read t dev cs s))"
  using read_battery_levels_levels
    [of t "s\<lparr>client := Some \<lparr>client_is_connected = still_connected t\<rparr>, device := Some dev,
              battery_characteristics := cs\<rparr>"]
    read_battery_levels_state
    [of t "s\<lparr>client := Some \<lparr>client_is_connected = still_connected t\<rparr>, device := Some dev,
              battery_characteristics := cs\<rparr>"]
  by (simp add: store_and_read_def Let_def split_beta)

lemma handler_levels:
  "levels_in 254 (batteries s) \<Longrightarrow>
   levels_in 254 (batteries (fst (battery_level_changed_handler sender data s)))"
  using normalized_level_ok [of undefined]
  by (cases data) (simp_all add: battery_level_changed_handler_def handler_loop_levels)

lemma connect_levels: "levels_in 254 (batteries (fst (snd (connect t n i s0))))"
proof -
  have e: "levels_in 254 []"
    by (simp add: levels_in_def)
  show ?thesis
    unfolding connect_def disconnect_in_loop Let_def
    by (auto split: outcome.splits option.splits prod.splits
        simp: connect_except_batteries disconnect_and_return_batteries e
        intro!: store_and_read_levels dest: subscribe_loop_levels [OF e])
qed

text \<open>
  Claim C3, as the code has it. After connect (with its initial read), in the map
  returned by \<^verbatim>\<open>read_battery_levels\<close>, and after the notification handler has
  processed any payload, every Battery Channel's level is \<open>-1\<close> or lies in
  \<open>[0, 254]\<close>: the first byte is stored as it is, and only 255 is rewritten.
\<close>

theorem levels_within_byte_range:
  "levels_in 254 (batteries (fst (snd (connect t device_name device_id s0))))
   \<and> levels_in 254 (rr_batteries (fst (read_battery_levels t s)))
   \<and> (levels_in 254 (batteries s) \<longrightarrow>
        levels_in 254 (batteries (snd (read_battery_levels t s)))
        \<and> levels_in 254 (batteries (fst (battery_level_changed_handler sender data s))))"
  by (simp add: connect_levels read_battery_levels_levels read_battery_levels_state
      handler_levels)

theorem levels_within_byte_range_witness:
  "levels_in 254 (batteries connected_monitor)
   \<and> levels_in 254 (batteries (fst (battery_level_changed_handler 20 [200] connected_monitor)))
   \<and> map_of (batteries (fst (battery_level_changed_handler 20 [200] connected_monitor))) 20
       = Some \<lparr>name = ''Right'', level = 200\<rparr>"
  using levels_within_byte_range [of split_keyboard "[]" "[]" init_monitor connected_monitor 20 "[200]"]
  by (simp add: connected_monitor_def levels_in_def level_ok_def
      battery_level_changed_handler_def)

text \<open>
  The bound of Claim C3 as stated, \<open>[0, 100]\<close>, does not hold: a notification
  with first byte 200 for the right half stores level 200.
\<close>

theorem level_above_100_counterexample:
  "levels_in 100 (batteries connected_monitor)
   \<and> \<not> levels_in 100 (batteries (fst (battery_level_changed_handler 20 [200] connected_monitor)))"
  by (simp add: connected_monitor_def levels_in_def level_ok_def
      battery_level_changed_handler_def)

section \<open>Bulk read: not connected, and failure without partial results\<close>

text \<open>
  Claim C4. Without an active session \<^verbatim>\<open>read_battery_levels\<close> returns
  \<^verbatim>\<open>NOT_CONNECTED\<close>. With one, if reading some channel raises, the read returns
  \<^verbatim>\<open>FAILURE\<close> with the message of a raising read as diagnostic text, an empty
  channel map (nothing read before the exception is kept), and the monitor's
  state is unchanged.
\<close>

theorem read_not_connected_or_failure_is_atomic:
  "(\<not> is_connected s \<longrightarrow>
      read_battery_levels t s =
        (\<lparr>rr_status = NOT_CONNECTED, rr_batteries = [], rr_error_message = []\<rparr>, s))
   \<and> (is_connected s \<and> (h, d) \<in> set (battery_characteristics s)
        \<and> read_gatt_char t (char_uuid_of h) = Raises e \<longrightarrow>
      (\<exists>e'. (\<exists>h' \<in> fst ` set (battery_characteristics s).
                read_gatt_char t (char_uuid_of h') = Raises e')
         \<and> read_battery_levels t s =
             (\<lparr>rr_status = FAILURE, rr_batteries = [], rr_error_message = e'\<rparr>, s)))"
proof (intro conjI impI)
  assume "\<not> is_connected s"
  then show "read_battery_levels t s =
      (\<lparr>rr_status = NOT_CONNECTED, rr_batteries = [], rr_error_message = []\<rparr>, s)"
    by (simp add: read_battery_levels_def)
next
  assume a: "is_connected s \<and> (h, d) \<in> set (battery_characteristics s)
        \<and> read_gatt_char t (char_uuid_of h) = Raises e"
  then have c: "client s \<noteq> None" by (auto simp: is_connected_def split: option.splits)
  from a read_loop_raises [of h d "battery_characteristics s" t e "[]"]
  obtain e' where r: "read_loop t (battery_characteristics s) [] = Raises e'" by blast
  from read_loop_raised_by [OF r] a c r
  show "\<exists>e'. (\<exists>h' \<in> fst ` set (battery_characteristics s).
                read_gatt_char t (char_uuid_of h') = Raises e')
         \<and> read_battery_levels t s =
             (\<lparr>rr_status = FAILURE, rr_batteries = [], rr_error_message = e'\<rparr>, s)"
    by (auto simp: read_battery_levels_def)
qed

theorem read_not_connected_or_failure_is_atomic_witness:
  "read_battery_levels split_keyboard init_monitor =
     (\<lparr>rr_status = NOT_CONNECTED, rr_batteries = [], rr_error_message = []\<rparr>, init_monitor)
   \<and> read_battery_levels right_half_read_fails connected_monitor =
     (\<lparr>rr_status = FAILURE, rr_batteries = [], rr_error_message = ''GATT read timed out''\<rparr>,
      connected_monitor)"
  using read_not_connected_or_failure_is_atomic [of init_monitor split_keyboard]
    read_not_connected_or_failure_is_atomic
      [of connected_monitor right_half_read_fails 20 "''Right''" "''GATT read timed out''"]
  by (simp add: example_defs uuid_defs is_connected_def read_battery_levels_def)

section \<open>The notification handler and the normalization of the level byte\<close>

lemma handler_sets_sender:
  "sender \<in> fst ` set (battery_characteristics s) \<Longrightarrow>
   \<exists>st. map_of (batteries (fst (battery_level_changed_handler sender (b # rest) s))) sender
          = Some st \<and> level st = (if b = 255 then - 1 else uint b)"
  using handler_loop_known
    [of sender "battery_characteristics s" "if uint b = 255 then - 1 else uint b" "batteries s"]
  by (auto simp: battery_level_changed_handler_def uint_byte_255)

lemma handler_frame:
  "client (fst (battery_level_changed_handler sender data s)) = client s
   \<and> device (fst (battery_level_changed_handler sender data s)) = device s
   \<and> battery_characteristics (fst (battery_level_changed_handler sender data s))
       = battery_characteristics s"
  by (cases data) (simp_all add: battery_level_changed_handler_def)

text \<open>
  What does hold of the handler: a notification changes no channel other than the
  sender's, a sender that is a characteristic of the session gets the normalized
  byte as its level, and for any other sender the monitor's state stays as it
  was, which is the case for every sender once \<^verbatim>\<open>disconnect\<close> has returned.
\<close>

lemma handler_changes_only_sender_channel:
  "(h \<noteq> sender \<longrightarrow>
      map_of (batteries (fst (battery_level_changed_handler sender data s))) h
        = map_of (batteries s) h)
   \<and> (sender \<in> fst ` set (battery_characteristics s) \<longrightarrow>
        (\<exists>st. map_of (batteries (fst (battery_level_changed_handler sender (b # rest) s))) sender
                 = Some st
           \<and> level st = (if b = 255 then - 1 else uint b)))
   \<and> (sender \<notin> fst ` set (battery_characteristics s) \<longrightarrow>
        fst (battery_level_changed_handler sender data s) = s)
   \<and> (fst (disconnect running_loop s) = Returns () \<longrightarrow>
        fst (battery_level_changed_handler sender data (snd (disconnect running_loop s)))
          = snd (disconnect running_loop s))"
proof (intro conjI impI)
  assume "h \<noteq> sender"
  then show "map_of (batteries (fst (battery_level_changed_handler sender data s))) h
        = map_of (batteries s) h"
    by (cases data) (simp_all add: battery_level_changed_handler_def handler_loop_others)
next
  assume "sender \<in> fst ` set (battery_characteristics s)"
  then show "\<exists>st. map_of (batteries (fst (battery_level_changed_handler sender (b # rest) s)))
         sender = Some st \<and> level st = (if b = 255 then - 1 else uint b)"
    by (rule handler_sets_sender)
next
  assume "sender \<notin> fst ` set (battery_characteristics s)"
  then show "fst (battery_level_changed_handler sender data s) = s"
    by (cases data) (simp_all add: battery_level_changed_handler_def handler_loop_unknown)
next
  assume "fst (disconnect running_loop s) = Returns ()"
  then show "fst (battery_level_changed_handler sender data (snd (disconnect running_loop s)))
          = snd (disconnect running_loop s)"
    by (cases data)
       (auto simp: battery_level_changed_handler_def disconnect_def split: if_splits)
qed

text \<open>
  Claim C6 at concrete runs. The claim has a notification for a handle that is
  not in the session ignored. With the split keyboard connected, a notification
  from handle 99 leaves the channels alone but the change callback is invoked
  all the same, and so it is for a notification that arrives after
  \<^verbatim>\<open>disconnect\<close> has returned. When \<^verbatim>\<open>disconnect\<close> is called where no event loop
  runs, as the tray's button handler does, it raises after clearing the
  channels and before resetting the session; a notification for handle 20 that
  arrives afterwards enters the channel "Right" again.
\<close>

theorem notification_for_unknown_handle_invokes_callback:
  "battery_level_changed_handler 99 [45] connected_monitor = (connected_monitor, True)
   \<and> disconnect True connected_monitor = (Returns (), init_monitor)
   \<and> battery_level_changed_handler 20 [45] init_monitor = (init_monitor, True)
   \<and> disconnect False connected_monitor =
       (Raises ''no running event loop'', connected_monitor\<lparr>batteries := []\<rparr>)
   \<and> battery_level_changed_handler 20 [45] (connected_monitor\<lparr>batteries := []\<rparr>) =
       (connected_monitor\<lparr>batteries := [(20, \<lparr>name = ''Right'', level = 45\<rparr>)]\<rparr>, True)"
  by (simp add: battery_level_changed_handler_def disconnect_def is_connected_def
      connected_monitor_def init_monitor_def)

text \<open>
  Claim C8. In the notification handler and in \<^verbatim>\<open>read_battery_levels\<close> alike, a
  first byte of 255 becomes level \<open>-1\<close> and every other byte value becomes the
  level unchanged; nothing else is special-cased. For the handler: the channel
  of a sender in the session gets that level. For the bulk read: with a session
  active and no read raising, the read succeeds and its map has that level for
  every characteristic whose read returned a first byte.
\<close>

theorem level_normalization:
  "(sender \<in> fst ` set (battery_characteristics s) \<longrightarrow>
      (\<exists>st. map_of (batteries (fst (battery_level_changed_handler sender (b # rest) s))) sender
               = Some st
         \<and> level st = (if b = 255 then - 1 else uint b)))
   \<and> (is_connected s
        \<and> list_all (\<lambda>(h', d'). \<exists>v. read_gatt_char t (char_uuid_of h') = Returns v)
             (battery_characteristics s)
        \<and> (h, d) \<in> set (battery_characteristics s)
        \<and> read_gatt_char t (char_uuid_of h) = Returns (b # rest) \<longrightarrow>
      rr_status (fst (read_battery_levels t s)) = SUCCESS
      \<and> (\<exists>st. map_of (rr_batteries (fst (read_battery_levels t s))) h = Some st
           \<and> level st = (if b = 255 then - 1 else uint b)))"
proof (intro conjI impI)
  assume "sender \<in> fst ` set (battery_characteristics s)"
  then show "\<exists>st. map_of (batteries (fst (battery_level_changed_handler sender (b # rest) s)))
         sender = Some st \<and> level st = (if b = 255 then - 1 else uint b)"
    by (rule handler_sets_sender)
next
  assume a: "is_connected s
        \<and> list_all (\<lambda>(h', d'). \<exists>v. read_gatt_char t (char_uuid_of h') = Returns v)
             (battery_characteristics s)
        \<and> (h, d) \<in> set (battery_characteristics s)
        \<and> read_gatt_char t (char_uuid_of h) = Returns (b # rest)"
  then have "\<forall>(h', d') \<in> set (battery_characteristics s).
      \<exists>v. read_gatt_char t (char_uuid_of h') = Returns v"
    by (simp add: list_all_iff)
  from read_loop_returns [OF this, of "[]"] obtain bs where
    bs: "read_loop t (battery_characteristics s) [] = Returns bs" by blast
  from a have c: "client s \<noteq> None" by (auto simp: is_connected_def split: option.splits)
  from a c bs have r: "fst (read_battery_levels t s)
      = \<lparr>rr_status = SUCCESS, rr_batteries = bs, rr_error_message = []\<rparr>"
    by (auto simp: read_battery_levels_def)
  from a read_loop_normalizes [of h d "battery_characteristics s" t b rest "[]" bs] bs
  have n: "\<exists>st. map_of bs h = Some st \<and> level st = (if b = 255 then - 1 else uint b)"
    by (simp add: uint_byte_255)
  from r show "rr_status (fst (read_battery_levels t s)) = SUCCESS" by simp
  from r n show "\<exists>st. map_of (rr_batteries (fst (read_battery_levels t s))) h = Some st
         \<and> level st = (if b = 255 then - 1 else uint b)"
    by simp
qed

text \<open>
  The handler at bytes 255 and 254, and a bulk read whose bytes (255 for the
  left half, 63 for the right) differ from the levels the monitor holds (87 and
  unknown).
\<close>

theorem level_normalization_witness:
  "map_of (batteries (fst (battery_level_changed_handler 16 [255] connected_monitor))) 16
     = Some \<lparr>name = ''Left'', level = - 1\<rparr>
   \<and> map_of (batteries (fst (battery_level_changed_handler 16 [254] connected_monitor))) 16
     = Some \<lparr>name = ''Left'', level = 254\<rparr>
   \<and> rr_status (fst (read_battery_levels new_readings connected_monitor)) = SUCCESS
   \<and> map_of (rr_batteries (fst (read_battery_levels new_readings connected_monitor))) 16
     = Some \<lparr>name = ''Left'', level = - 1\<rparr>
   \<and> map_of (rr_batteries (fst (read_battery_levels new_readings connected_monitor))) 20
     = Some \<lparr>name = ''Right'', level = 63\<rparr>"
  using level_normalization [of 16 connected_monitor 255 "[]" new_readings 16 "''Left''"]
    level_normalization [of 16 connected_monitor 254 "[]" new_readings 20 "''Right''"]
    level_normalization [of 20 connected_monitor 63 "[]" new_readings 20 "''Right''"]
  by (simp add: example_defs uuid_defs battery_level_changed_handler_def
      read_battery_levels_def is_connected_def)

section \<open>Connect: the handshake, the subscriptions and the initial read\<close>

lemma update_absent:
  "k \<notin> fst ` set al \<Longrightarrow> AList.update k v al = al @ [(k, v)]"
  by (induction al) auto

lemma subscribe_loop_all:
  "list_all (\<lambda>(h, d). start_notify t (char_uuid_of h) = Returns ()) cs \<Longrightarrow>
   distinct (map fst cs) \<Longrightarrow> fst ` set cs \<inter> fst ` set acc = {} \<Longrightarrow>
   subscribe_loop t cs acc calls =
     (None, acc @ unknown_levels cs, calls @ map (\<lambda>(h, d). StartNotify (char_uuid_of h)) cs)"
proof (induction t cs acc calls rule: subscribe_loop.induct)
  case (1 t bs calls)
  then show ?case by (simp add: unknown_levels_def)
next
  case (2 t handle description rest bs calls)
  from "2.prems" have ok: "start_notify t (char_uuid_of handle) = Returns ()" by simp
  from "2.prems" have absent: "handle \<notin> fst ` set bs" by auto
  have upd: "AList.update handle \<lparr>name = description, level = - 1\<rparr> bs
      = bs @ [(handle, \<lparr>name = description, level = - 1\<rparr>)]"
    using absent by (rule update_absent)
  have "subscribe_loop t rest (bs @ [(handle, \<lparr>name = description, level = - 1\<rparr>)])
          (calls @ [StartNotify (char_uuid_of handle)])
        = (None, (bs @ [(handle, \<lparr>name = description, level = - 1\<rparr>)]) @ unknown_levels rest,
           (calls @ [StartNotify (char_uuid_of handle)])
             @ map (\<lambda>(h, d). StartNotify (char_uuid_of h)) rest)"
    using "2.IH" [OF ok] "2.prems" upd by force
  with ok upd show ?case by (simp add: unknown_levels_def del: AList.update.simps)
qed

lemma read_loop_length:
  "distinct (map fst cs) \<Longrightarrow> fst ` set cs \<inter> fst ` set acc = {} \<Longrightarrow>
   list_all (\<lambda>(h, d). \<exists>b rest. read_gatt_char t (char_uuid_of h) = Returns (b # rest)) cs \<Longrightarrow>
   \<exists>bs. read_loop t cs acc = Returns bs \<and> length bs = length acc + length cs"
proof (induction t cs acc rule: read_loop.induct)
  case (1 t result)
  then show ?case by simp
next
  case (2 t handle description rest result)
  from "2.prems" obtain b vs where
    rd: "read_gatt_char t (char_uuid_of handle) = Returns (b # vs)" by auto
  from "2.prems" have absent: "handle \<notin> fst ` set result" by auto
  let ?st = "\<lparr>name = description, level = (if uint b = 255 then - 1 else uint b)\<rparr>"
  have upd: "AList.update handle ?st result = result @ [(handle, ?st)]"
    using absent by (rule update_absent)
  have "\<exists>bs. read_loop t rest (result @ [(handle, ?st)]) = Returns bs
          \<and> length bs = length (result @ [(handle, ?st)]) + length rest"
    using "2.IH"(2) [OF rd refl] "2.prems" upd by force
  with rd upd show ?case by (simp del: AList.update.simps)
qed

lemma connect_handshake_ok:
  assumes "handshake_ok t device_id" "distinct (map fst (reported_characteristics t))"
  shows "\<exists>dev. find_device_by_address t device_id = Returns (Some dev) \<and>
     connect t device_name device_id s0 =
       (Returns \<lparr>cr_status = CONNECTED, cr_error_message = []\<rparr>,
        store_and_read t dev (reported_characteristics t)
          ((snd (disconnect True s0))
             \<lparr>batteries := unknown_levels (reported_characteristics t)\<rparr>),
        [FindDevice device_id, Connect, GetServices]
          @ map (\<lambda>(h, d). StartNotify (char_uuid_of h)) (reported_characteristics t))"
proof -
  from assms(1) obtain dev where dev: "find_device_by_address t device_id = Returns (Some dev)"
    by (auto simp: handshake_ok_def split: outcome.splits option.splits)
  from assms(1) have cc: "client_connect t = Returns ()" and up: "link_up t"
    and ne: "reported_characteristics t \<noteq> []"
    and sub: "list_all (\<lambda>(h, d). start_notify t (char_uuid_of h) = Returns ())
                (reported_characteristics t)"
    by (simp_all add: handshake_ok_def)
  from ne obtain services svc where sv: "get_services t = Returns services"
    and fs: "find_battery_service services = Some svc"
    and cs: "battery_level_characteristics svc = reported_characteristics t"
    by (auto simp: reported_characteristics_def split: outcome.splits option.splits)
  have loop: "subscribe_loop t (reported_characteristics t) []
        [FindDevice device_id, Connect, GetServices]
      = (None, [] @ unknown_levels (reported_characteristics t),
         [FindDevice device_id, Connect, GetServices]
           @ map (\<lambda>(h, d). StartNotify (char_uuid_of h)) (reported_characteristics t))"
    using sub assms(2) by (intro subscribe_loop_all) simp_all
  show ?thesis
    using dev cc up sv fs cs ne loop
    by (simp add: connect_def disconnect_in_loop Let_def)
qed


lemma store_and_read_batteries:
  "batteries (store_and_read t dev cs s) =
     (if still_connected t
      then (case read_loop t cs [] of Returns bs \<Rightarrow> bs | Raises e \<Rightarrow> batteries s)
      else batteries s)"
  by (simp add: store_and_read_def read_battery_levels_def is_connected_def Let_def
      split: outcome.splits)

lemma length_unknown_levels: "length (unknown_levels cs) = length cs"
  by (simp add: unknown_levels_def)

lemma unknown_levels_all_unknown: "list_all (\<lambda>(h, st). level st = - 1) (unknown_levels cs)"
  by (induction cs) (auto simp: unknown_levels_def)

text \<open>
  What does hold of a successful connect. When the handshake goes through and
  the reported characteristics have pairwise distinct handles, \<^verbatim>\<open>connect\<close>
  returns \<^verbatim>\<open>CONNECTED\<close> whatever the initial read does. The channel map handed
  to the initial read has one channel per reported characteristic, each at level
  \<open>-1\<close>. If the initial read fails (the link is reported down, or a read
  raises), the channels keep level \<open>-1\<close>. If it succeeds and every
  characteristic returned data, there is one channel per characteristic.
\<close>

lemma connect_channels_before_and_after_initial_read:
  assumes "handshake_ok t device_id"
    and "distinct (map fst (reported_characteristics t))"
  shows "\<exists>dev calls.
     connect t device_name device_id s0 =
       (Returns \<lparr>cr_status = CONNECTED, cr_error_message = []\<rparr>,
        store_and_read t dev (reported_characteristics t)
          ((snd (disconnect True s0))
             \<lparr>batteries := unknown_levels (reported_characteristics t)\<rparr>),
        calls)
     \<and> length (unknown_levels (reported_characteristics t))
         = length (reported_characteristics t)
     \<and> list_all (\<lambda>(h, st). level st = - 1) (unknown_levels (reported_characteristics t))
     \<and> (\<not> still_connected t
          \<or> list_ex (\<lambda>(h, d). \<exists>e. read_gatt_char t (char_uuid_of h) = Raises e)
               (reported_characteristics t) \<longrightarrow>
         batteries (fst (snd (connect t device_name device_id s0)))
           = unknown_levels (reported_characteristics t))
     \<and> (still_connected t
          \<and> list_all (\<lambda>(h, d). \<exists>b rest. read_gatt_char t (char_uuid_of h) = Returns (b # rest))
               (reported_characteristics t) \<longrightarrow>
         length (batteries (fst (snd (connect t device_name device_id s0))))
           = length (reported_characteristics t))"
proof -
  let ?cs = "reported_characteristics t"
  let ?pre = "(snd (disconnect True s0))\<lparr>batteries := unknown_levels ?cs\<rparr>"
  from connect_handshake_ok [OF assms, of device_name s0] obtain dev calls where
    c: "connect t device_name device_id s0 =
       (Returns \<lparr>cr_status = CONNECTED, cr_error_message = []\<rparr>,
        store_and_read t dev ?cs ?pre, calls)"
    by blast
  have fails: "batteries (store_and_read t dev ?cs ?pre) = unknown_levels ?cs"
    if "\<not> still_connected t
        \<or> list_ex (\<lambda>(h, d). \<exists>e. read_gatt_char t (char_uuid_of h) = Raises e) ?cs"
  proof (cases "still_connected t")
    case False
    then show ?thesis by (simp add: store_and_read_batteries)
  next
    case True
    with that obtain h d e where "(h, d) \<in> set ?cs"
      and "read_gatt_char t (char_uuid_of h) = Raises e"
      by (auto simp: list_ex_iff)
    from read_loop_raises [OF this, of "[]"] show ?thesis
      by (auto simp: store_and_read_batteries)
  qed
  have reads: "length (batteries (store_and_read t dev ?cs ?pre)) = length ?cs"
    if "still_connected t
        \<and> list_all (\<lambda>(h, d). \<exists>b rest. read_gatt_char t (char_uuid_of h) = Returns (b # rest)) ?cs"
  proof -
    from that read_loop_length [OF assms(2), of "[]" t]
    obtain bs where "read_loop t ?cs [] = Returns bs" and "length bs = length ?cs"
      by auto
    with that show ?thesis by (simp add: store_and_read_batteries)
  qed
  have fin: "fst (snd (connect t device_name device_id s0)) = store_and_read t dev ?cs ?pre"
    by (simp add: c)
  have f2: "\<not> still_connected t
          \<or> list_ex (\<lambda>(h, d). \<exists>e. read_gatt_char t (char_uuid_of h) = Raises e) ?cs \<longrightarrow>
         batteries (fst (snd (connect t device_name device_id s0))) = unknown_levels ?cs"
    using fails by (simp only: fin) blast
  have r2: "still_connected t
          \<and> list_all (\<lambda>(h, d). \<exists>b rest. read_gatt_char t (char_uuid_of h) = Returns (b # rest))
               ?cs \<longrightarrow>
         length (batteries (fst (snd (connect t device_name device_id s0)))) = length ?cs"
    using reads by (simp only: fin) blast
  show ?thesis
    apply (rule exI [of _ dev], rule exI [of _ calls])
    apply (intro conjI)
        apply (rule c)
       apply (rule length_unknown_levels)
      apply (rule unknown_levels_all_unknown)
     apply (rule f2)
    apply (rule r2)
    done
qed

text \<open>
  Claim C7 at a concrete run. The transport reports two battery-level
  characteristics and the subscription loop enters a channel for each, at level
  \<open>-1\<close>. The right half answers the initial read with no bytes; the read
  succeeds, \<^verbatim>\<open>connect\<close> replaces the channel map by the read's map and returns
  \<^verbatim>\<open>CONNECTED\<close> with one Battery Channel for two characteristics.
\<close>

theorem silent_read_leaves_one_channel_for_two_characteristics:
  "length (reported_characteristics right_half_silent) = 2
   \<and> fst (snd (subscribe_loop right_half_silent (reported_characteristics right_half_silent)
        [] [])) =
       [(16, \<lparr>name = ''Left'', level = - 1\<rparr>), (20, \<lparr>name = ''Right'', level = - 1\<rparr>)]
   \<and> fst (connect right_half_silent ''Corne'' (dev_address keyboard) init_monitor)
       = Returns \<lparr>cr_status = CONNECTED, cr_error_message = []\<rparr>
   \<and> length (batteries (fst (snd
        (connect right_half_silent ''Corne'' (dev_address keyboard) init_monitor)))) = 1"
  by (simp add: reported_characteristics_def connect_defs example_defs uuid_defs)

section \<open>Bulk read: a characteristic that returns no data\<close>

text \<open>
  What does hold of a read that returns no data: it does not make the bulk read
  fatal (when no read raises the status is \<^verbatim>\<open>SUCCESS\<close>), and the read itself
  leaves the monitor's state as it was. The returned map has no entry for that
  handle, and neither has the map that \<^verbatim>\<open>connect\<close> stores from it.
\<close>

lemma read_skips_silent_channel:
  "(is_connected s
      \<and> list_all (\<lambda>(h', d). \<exists>v. read_gatt_char t (char_uuid_of h') = Returns v)
           (battery_characteristics s)
      \<and> read_gatt_char t (char_uuid_of h) = Returns [] \<longrightarrow>
    rr_status (fst (read_battery_levels t s)) = SUCCESS
    \<and> snd (read_battery_levels t s) = s
    \<and> map_of (rr_batteries (fst (read_battery_levels t s))) h = None)
   \<and> (still_connected t
      \<and> list_all (\<lambda>(h', d). \<exists>v. read_gatt_char t (char_uuid_of h') = Returns v) cs
      \<and> read_gatt_char t (char_uuid_of h) = Returns [] \<longrightarrow>
    map_of (batteries (store_and_read t dev cs s0)) h = None)"
proof (intro conjI impI)
  assume a: "is_connected s
      \<and> list_all (\<lambda>(h', d). \<exists>v. read_gatt_char t (char_uuid_of h') = Returns v)
           (battery_characteristics s)
      \<and> read_gatt_char t (char_uuid_of h) = Returns []"
  then have "\<forall>(h', d) \<in> set (battery_characteristics s).
      \<exists>v. read_gatt_char t (char_uuid_of h') = Returns v"
    by (simp add: list_all_iff)
  from read_loop_returns [OF this, of "[]"] obtain bs where
    bs: "read_loop t (battery_characteristics s) [] = Returns bs" by blast
  from a have c: "client s \<noteq> None" by (auto simp: is_connected_def split: option.splits)
  from a c bs have r: "fst (read_battery_levels t s)
      = \<lparr>rr_status = SUCCESS, rr_batteries = bs, rr_error_message = []\<rparr>"
    by (auto simp: read_battery_levels_def)
  from r show "rr_status (fst (read_battery_levels t s)) = SUCCESS" by simp
  show "snd (read_battery_levels t s) = s" by (rule read_battery_levels_state)
  from a read_loop_skips [of t h "[]" "battery_characteristics s" bs] bs r
  show "map_of (rr_batteries (fst (read_battery_levels t s))) h = None" by simp
next
  assume a: "still_connected t
      \<and> list_all (\<lambda>(h', d). \<exists>v. read_gatt_char t (char_uuid_of h') = Returns v) cs
      \<and> read_gatt_char t (char_uuid_of h) = Returns []"
  then have "\<forall>(h', d) \<in> set cs. \<exists>v. read_gatt_char t (char_uuid_of h') = Returns v"
    by (simp add: list_all_iff)
  from read_loop_returns [OF this, of "[]"] obtain bs where
    bs: "read_loop t cs [] = Returns bs" by blast
  from a read_loop_skips [of t h "[]" cs bs] bs
  show "map_of (batteries (store_and_read t dev cs s0)) h = None"
    by (simp add: store_and_read_batteries)
qed

text \<open>
  Claim C5 at a concrete run. The right half's read returns no data during the
  initial read of \<^verbatim>\<open>connect\<close>. The read succeeds and is committed; the channel
  with handle 20, which the subscription loop had entered at level \<open>-1\<close>, is
  no longer in the monitor's map, instead of being there with that level. When
  the same read raises instead, both channels stay, at level \<open>-1\<close>.
\<close>

theorem silent_read_drops_subscribed_channel:
  "read_gatt_char right_half_silent (char_uuid_of 20) = Returns []
   \<and> connect right_half_silent ''Corne'' (dev_address keyboard) init_monitor =
       (Returns \<lparr>cr_status = CONNECTED, cr_error_message = []\<rparr>,
        connected_monitor\<lparr>batteries := [(16, \<lparr>name = ''Left'', level = 87\<rparr>)]\<rparr>,
        [FindDevice (dev_address keyboard), Connect, GetServices,
         StartNotify (char_uuid_of 16), StartNotify (char_uuid_of 20)])
   \<and> map_of (batteries (fst (snd
        (connect right_half_silent ''Corne'' (dev_address keyboard) init_monitor)))) 20 = None
   \<and> batteries (fst (snd
        (connect right_half_read_fails ''Corne'' (dev_address keyboard) init_monitor))) =
       [(16, \<lparr>name = ''Left'', level = - 1\<rparr>), (20, \<lparr>name = ''Right'', level = - 1\<rparr>)]"
  by (simp add: connect_defs example_defs uuid_defs)

section \<open>Connect: a subscription that fails\<close>

text \<open>
  Claim C1 at a concrete run: subscribing to the second of two characteristics
  raises. \<^verbatim>\<open>connect\<close> returns \<^verbatim>\<open>SUBSCRIPTION_FAILURE\<close> with the exception's
  text and awaits the transport's disconnect, but the channel entered for the
  first characteristic stays in the monitor's map.
\<close>

theorem second_subscription_failure_leaves_channel:
  "connect second_subscribe_fails ''Corne'' (dev_address keyboard) init_monitor =
     (Returns \<lparr>cr_status = SUBSCRIPTION_FAILURE, cr_error_message = ''Notify acquire failed''\<rparr>,
      init_monitor\<lparr>batteries := [(16, \<lparr>name = ''Left'', level = - 1\<rparr>)]\<rparr>,
      [FindDevice (dev_address keyboard), Connect, GetServices,
       StartNotify (char_uuid_of 16), StartNotify (char_uuid_of 20), Disconnect])"
  by (simp add: connect_defs example_defs uuid_defs)

text \<open>
  Claim C2 at the same run: starting from a fresh monitor, after \<^verbatim>\<open>connect\<close> has
  returned no session is active and the Battery Channel collection is not empty.
\<close>

theorem failed_connect_leaves_channels_without_session:
  "\<not> is_connected (fst (snd
       (connect second_subscribe_fails ''Corne'' (dev_address keyboard) init_monitor)))
   \<and> batteries (fst (snd
       (connect second_subscribe_fails ''Corne'' (dev_address keyboard) init_monitor))) \<noteq> []"
  by (simp add: connect_defs example_defs uuid_defs)

text \<open>
  \<^verbatim>\<open>disconnect\<close> always leaves no channel; when it returns, it leaves no session
  either.
\<close>

lemma disconnect_clears:
  "batteries (snd (disconnect running_loop s)) = []
   \<and> (fst (disconnect running_loop s) = Returns () \<longrightarrow>
        \<not> is_connected (snd (disconnect running_loop s)))"
  by (simp add: disconnect_def is_connected_def)

section \<open>Device enumeration\<close>

lemma report_devices_all:
  "\<forall>n a. device_callback n a = Returns () \<Longrightarrow>
   report_devices device_callback ds tr =
     (Returns (),
      tr @ map (\<lambda>d. DeviceCallback (the (dev_name d)) (dev_address d)) (filter has_name ds))"
  by (induction device_callback ds tr rule: report_devices.induct)
     (auto simp: has_name_def split: option.splits)

lemma count_completion_in_device_events:
  "count_list (map (\<lambda>d. DeviceCallback (the (dev_name d)) (dev_address d)) ds)
     CompletionCallback = 0"
  by (induction ds) auto

text \<open>
  What does hold when both callbacks return: \<^verbatim>\<open>list_paired_devices\<close> invokes the
  device callback for exactly the discovered devices that have a non-empty name,
  in discovery order, and then the completion callback; when the scan raises, the
  error is logged and the completion callback is invoked. In both cases the
  completion callback is invoked exactly once, as the last thing, and no
  exception leaves the function.
\<close>

lemma list_paired_devices_reports_named_then_completes:
  assumes "\<forall>n a. device_callback n a = Returns ()"
    and "completion_callback = Returns ()"
  shows "(discover t = Returns devices \<longrightarrow>
            list_paired_devices t device_callback completion_callback =
              (Returns (),
               map (\<lambda>d. DeviceCallback (the (dev_name d)) (dev_address d))
                 (filter has_name devices) @ [CompletionCallback]))
     \<and> (discover t = Raises e \<longrightarrow>
            list_paired_devices t device_callback completion_callback =
              (Returns (),
               [LogError (''Error discovering devices: '' @ e), CompletionCallback]))
     \<and> fst (list_paired_devices t device_callback completion_callback) = Returns ()
     \<and> count_list (snd (list_paired_devices t device_callback completion_callback))
          CompletionCallback = 1
     \<and> last (snd (list_paired_devices t device_callback completion_callback))
          = CompletionCallback"
proof (cases "discover t")
  case (Raises e')
  with assms(2) show ?thesis
    by (simp add: list_paired_devices_def enum_except_def)
next
  case (Returns ds)
  have lp: "list_paired_devices t device_callback completion_callback =
      (Returns (),
       map (\<lambda>d. DeviceCallback (the (dev_name d)) (dev_address d))
         (filter has_name ds) @ [CompletionCallback])"
    using Returns assms(2) report_devices_all [OF assms(1), of ds "[]"]
    by (simp add: list_paired_devices_def)
  from Returns show ?thesis
    by (auto simp: lp count_completion_in_device_events)
qed

text \<open>
  Claim C10 at concrete runs. The scan succeeds and finds the keyboard and two
  unnamed devices. With a completion callback that raises, the call inside the
  \<^verbatim>\<open>try\<close> block is caught by the \<^verbatim>\<open>except\<close> branch, which logs and calls the
  completion callback a second time; that exception leaves the function. With
  a device callback that raises, the error is logged as a discovery error and
  the completion callback is invoked once.
\<close>

theorem raising_completion_callback_is_invoked_twice:
  "list_paired_devices split_keyboard (\<lambda>n a. Returns ()) (Raises ''window is gone'') =
     (Raises ''window is gone'',
      [DeviceCallback ''Corne'' ''F0:0D:CA:FE:00:01'', CompletionCallback,
       LogError ''Error discovering devices: window is gone'', CompletionCallback])
   \<and> count_list
        (snd (list_paired_devices split_keyboard (\<lambda>n a. Returns ()) (Raises ''window is gone'')))
        CompletionCallback = 2
   \<and> list_paired_devices split_keyboard (\<lambda>n a. Raises ''list is gone'') (Returns ()) =
     (Returns (),
      [DeviceCallback ''Corne'' ''F0:0D:CA:FE:00:01'',
       LogError ''Error discovering devices: list is gone'', CompletionCallback])"
  by (simp add: list_paired_devices_def enum_except_def split_keyboard_def keyboard_def)

section \<open>The Reconnect Scheduler\<close>

text \<open>
  Starting twice is starting once; a \<^verbatim>\<open>CONNECTED\<close> outcome stops the timer, after
  which no tick issues an attempt; with a root window, any other outcome resets
  the counter to the interval and queues the next tick.
\<close>

lemma start_reconnect_timer_idempotent:
  "start_reconnect_timer (start_reconnect_timer a) = start_reconnect_timer a"
  by (simp add: start_reconnect_timer_def)

lemma start_reconnect_timer_one_countdown:
  "\<not> reconnect_timer_running a \<Longrightarrow>
   pending_ticks (start_reconnect_timer (start_reconnect_timer a)) = pending_ticks a + 1
   \<and> reconnect_counter (start_reconnect_timer (start_reconnect_timer a)) = RECONNECT_INTERVAL"
  by (simp add: start_reconnect_timer_def)

lemma connected_halts:
  "cr_status r = CONNECTED \<Longrightarrow>
   \<not> reconnect_timer_running (on_connect_done (Returns r) a)
   \<and> pending_ticks (on_connect_done (Returns r) a) = pending_ticks a"
  by (simp add: on_connect_done_def)

lemma halted_never_attempts:
  "\<not> reconnect_timer_running a \<Longrightarrow> snd (run_ticks n a) = False"
proof (induction n arbitrary: a)
  case 0
  then show ?case by simp
next
  case (Suc n)
  then show ?case
    by (auto simp: run_pending_tick_def timer_tick_def split: option.splits)
qed

lemma failure_retries_with_root:
  "root a \<Longrightarrow> cr_status r \<noteq> CONNECTED \<Longrightarrow>
   on_connect_done (Returns r) a =
     a\<lparr>reconnect_counter := RECONNECT_INTERVAL, pending_ticks := pending_ticks a + 1\<rparr>"
  by (simp add: on_connect_done_def retry_later_def Let_def)

lemma countdown:
  "reconnect_timer_running a \<Longrightarrow> pending_ticks a = 1 \<Longrightarrow>
   reconnect_counter a = int (Suc n) \<Longrightarrow>
   run_ticks (Suc n) a = (a\<lparr>reconnect_counter := 0, pending_ticks := 0\<rparr>, True)"
proof (induction n arbitrary: a)
  case 0
  then show ?case
    by (simp add: run_pending_tick_def timer_tick_def Let_def)
next
  case (Suc n)
  let ?a' = "a\<lparr>pending_ticks := 1, reconnect_counter := int (Suc n)\<rparr>"
  from Suc.prems have step: "run_pending_tick a = Some (?a', False)"
    by (simp add: run_pending_tick_def timer_tick_def Let_def)
  have "run_ticks (Suc n) ?a' = (?a'\<lparr>reconnect_counter := 0, pending_ticks := 0\<rparr>, True)"
    using Suc.prems by (intro Suc.IH) simp_all
  with step show ?case by simp
qed

text \<open>
  Claim C9 at a concrete run. The application is started with a device on the
  command line, so no root window exists. The countdown of 300 ticks ends in a
  connect attempt; the attempt returns \<^verbatim>\<open>DEVICE_NOT_FOUND\<close>. The counter is
  reset to 300, but no tick is queued, and since the timer still counts as
  running, starting it again does nothing: the countdown does not resume.
\<close>

theorem headless_scheduler_stalls_after_failed_attempt:
  "run_ticks 300 (start_reconnect_timer init_app) =
     (\<lparr>reconnect_counter = 0, reconnect_timer_running = True, root = False,
       pending_ticks = 0\<rparr>, True)
   \<and> on_connect_done (Returns \<lparr>cr_status = DEVICE_NOT_FOUND, cr_error_message = []\<rparr>)
       \<lparr>reconnect_counter = 0, reconnect_timer_running = True, root = False,
        pending_ticks = 0\<rparr>
     = \<lparr>reconnect_counter = 300, reconnect_timer_running = True, root = False,
        pending_ticks = 0\<rparr>
   \<and> run_pending_tick
       \<lparr>reconnect_counter = 300, reconnect_timer_running = True, root = False,
        pending_ticks = 0\<rparr> = None
   \<and> start_reconnect_timer
       \<lparr>reconnect_counter = 300, reconnect_timer_running = True, root = False,
        pending_ticks = 0\<rparr>
     = \<lparr>reconnect_counter = 300, reconnect_timer_running = True, root = False,
        pending_ticks = 0\<rparr>"
proof -
  have "run_ticks (Suc 299) (start_reconnect_timer init_app) =
      ((start_reconnect_timer init_app)\<lparr>reconnect_counter := 0, pending_ticks := 0\<rparr>, True)"
    by (rule countdown)
       (simp_all add: start_reconnect_timer_def init_app_def RECONNECT_INTERVAL_def)
  then show ?thesis
    by (simp add: start_reconnect_timer_def init_app_def RECONNECT_INTERVAL_def
        on_connect_done_def retry_later_def run_pending_tick_def Let_def)
qed

end
